theory Spec2Isabelle
  imports Main "HOL-Library.Sublist"
begin

section \<open>libs/pubsub/query: compiled queries (compile.go)\<close>

subsection \<open>Types of the collaborating packages\<close>

text \<open>
  Package \<open>syntax\<close> (the parser) and package \<open>abci/types\<close> (events) are used by
  compile.go but declared elsewhere. Their types are given here as far as compile.go
  reads them.

  A \<open>syntax.Token\<close> is an integer tag. The constructors below are the tokens that
  compile.go names; every other token value is \<open>TOther n\<close>.
\<close>

datatype Token =
    TString | TNumber | TTime | TDate
  | TContains | TExists | TEq | TLt | TLeq | TGt | TGeq
  | TOther nat

text \<open>
  A \<open>syntax.Arg\<close> carries its token type and is read through the accessor methods
  \<open>Value()\<close>, \<open>Number()\<close> and \<open>Time()\<close>. The accessors are not part of compile.go, so
  their results are fields of the record: \<open>'n\<close> stands for Go's \<open>float64\<close> and
  \<open>'t\<close> for \<open>time.Time\<close>.
\<close>

record ('n, 't) Arg =
  Arg_Type :: Token
  Arg_Value :: string
  Arg_Number :: 'n
  Arg_Time :: 't

text \<open>A \<open>syntax.Condition\<close>; \<open>Arg\<close> is a pointer in Go, \<open>None\<close> is \<open>nil\<close>.\<close>

record ('n, 't) Condition =
  Tag :: string
  Op :: Token
  Arg :: "('n, 't) Arg option"

type_synonym ('n, 't) Query = "('n, 't) Condition list"

text \<open>\<open>types.Event\<close> and \<open>types.EventAttribute\<close>, with the fields compile.go reads.\<close>

record EventAttribute =
  Key :: string
  Value :: string

record Event =
  Type :: string
  Attributes :: "EventAttribute list"

text \<open>
  The library functions that the match functions call, and the comparisons of the two
  opaque value types. \<open>ParseFloat s\<close> is \<open>strconv.ParseFloat(s, 64)\<close>, and
  \<open>ParseDate\<close>, \<open>ParseTime\<close> are \<open>syntax.ParseDate\<close>, \<open>syntax.ParseTime\<close>; each
  returns \<open>None\<close> where the Go function returns a non-nil error. \<open>num_eq\<close>, \<open>num_lt\<close>
  and \<open>num_le\<close> are \<open>==\<close>, \<open><\<close> and \<open><=\<close> on \<open>float64\<close> (\<open>w > v\<close> is \<open>num_lt v w\<close> and
  \<open>w >= v\<close> is \<open>num_le v w\<close>); \<open>time_Equal\<close>, \<open>time_Before\<close> and \<open>time_After\<close> are the
  methods of \<open>time.Time\<close>, the receiver first.
\<close>

record ('n, 't) golib =
  ParseFloat :: "string \<Rightarrow> 'n option"
  ParseDate :: "string \<Rightarrow> 't option"
  ParseTime :: "string \<Rightarrow> 't option"
  num_eq :: "'n \<Rightarrow> 'n \<Rightarrow> bool"
  num_lt :: "'n \<Rightarrow> 'n \<Rightarrow> bool"
  num_le :: "'n \<Rightarrow> 'n \<Rightarrow> bool"
  time_Equal :: "'t \<Rightarrow> 't \<Rightarrow> bool"
  time_Before :: "'t \<Rightarrow> 't \<Rightarrow> bool"
  time_After :: "'t \<Rightarrow> 't \<Rightarrow> bool"

subsection \<open>Conditions and compiled queries\<close>

text \<open>
  A condition is a compiled match condition: the event type, the attribute name and the
  match function.
\<close>

record condition =
  etype :: string
  attr :: string
  match :: "string \<Rightarrow> bool"

record ('n, 't) Compiled =
  ast :: "('n, 't) Query"
  conds :: "condition list"

text \<open>The errors of \<open>compileCondition\<close> and \<open>Compile\<close>, one constructor per \<open>fmt.Errorf\<close>.\<close>

datatype ('n, 't) compile_error =
    MissingArgument Token
  | UnknownArgumentType Token
  | InvalidOpArg Token Token
  | CompileFailed "('n, 't) Condition" "('n, 't) compile_error"

subsection \<open>splitTag\<close>

text \<open>
  \<open>strings.Index(tag, ".")\<close> is the index of the first dot, or negative when there is
  none; the tag is cut around that dot.
\<close>

definition splitTag :: "string \<Rightarrow> string \<times> string" where
  "splitTag tag =
     (if CHR ''.'' \<in> set tag
      then (takeWhile (\<lambda>c. c \<noteq> CHR ''.'') tag, tl (dropWhile (\<lambda>c. c \<noteq> CHR ''.'') tag))
      else (tag, []))"

subsection \<open>findAttr, matchesEvent, matchesAny, matchesEvents, Matches\<close>

text \<open>The loop of \<open>findAttr\<close>: append the value of every attribute whose key is the name.\<close>

fun collectAttr :: "string \<Rightarrow> EventAttribute list \<Rightarrow> string list \<Rightarrow> string list" where
  "collectAttr name [] vals = vals"
| "collectAttr name (a # as) vals =
     collectAttr name as (if Key a = name then vals @ [Value a] else vals)"

text \<open>A nil slice and an empty slice are both \<open>[]\<close>: the code only reads their length.\<close>

definition findAttr :: "condition \<Rightarrow> Event \<Rightarrow> string list \<times> bool" where
  "findAttr c event =
     (if Type event \<noteq> etype c then ([], False)
      else if attr c = [] then ([], True)
      else (collectAttr (attr c) (Attributes event) [], True))"

text \<open>The last loop of \<open>matchesEvent\<close>: the first value that matches returns true.\<close>

fun matchesValue :: "(string \<Rightarrow> bool) \<Rightarrow> string list \<Rightarrow> bool" where
  "matchesValue m [] = False"
| "matchesValue m (v # vs) = (if m v then True else matchesValue m vs)"

definition matchesEvent :: "condition \<Rightarrow> Event \<Rightarrow> bool" where
  "matchesEvent c event =
     (case findAttr c event of (vs, ok) \<Rightarrow>
        if \<not> ok then False
        else if length vs = 0 then (if attr c = [] then match c [] else False)
        else matchesValue (match c) vs)"

fun matchesAny :: "condition \<Rightarrow> Event list \<Rightarrow> bool" where
  "matchesAny c [] = False"
| "matchesAny c (event # events) = (if matchesEvent c event then True else matchesAny c events)"

text \<open>The loop of \<open>matchesEvents\<close> over the conditions, with its final return.\<close>

fun matchesAll :: "condition list \<Rightarrow> Event list \<Rightarrow> bool" where
  "matchesAll [] events = (length events \<noteq> 0)"
| "matchesAll (cond # cs) events =
     (if \<not> matchesAny cond events then False else matchesAll cs events)"

definition matchesEvents :: "('n, 't) Compiled \<Rightarrow> Event list \<Rightarrow> bool" where
  "matchesEvents c events = matchesAll (conds c) events"

text \<open>
  \<open>Matches\<close> returns the pair of the result and the error. A Go \<open>error\<close> is modelled by
  its message, and \<open>None\<close> is the nil error.
\<close>

type_synonym error = string

definition Matches :: "('n, 't) Compiled \<Rightarrow> Event list \<Rightarrow> bool \<times> error option" where
  "Matches c events = (matchesEvents c events, None)"

subsection \<open>parseNumber\<close>

text \<open>
  \<open>extractNum\<close> is the regular expression \<open>^\d+(\.\d+)?\<close>, and \<open>FindString\<close> returns
  its leftmost match, or the empty string when there is none. \<open>\d\<close> is an ASCII digit.
  Both repetitions are greedy and the optional group is taken when it can be: the match is
  the longest run of leading digits, followed, when the next character is a dot with a
  digit after it, by that dot and the longest run of digits behind it.
\<close>

definition isDigit :: "char \<Rightarrow> bool" where
  "isDigit c = (c \<in> set ''0123456789'')"

definition extractNum :: "string \<Rightarrow> string" where
  "extractNum s =
     (let ds = takeWhile isDigit s; rest = dropWhile isDigit s in
      if ds = [] then []
      else case rest of
             [] \<Rightarrow> ds
           | c # rest' \<Rightarrow>
               if c = CHR ''.'' \<and> takeWhile isDigit rest' \<noteq> []
               then ds @ [c] @ takeWhile isDigit rest'
               else ds)"

text \<open>
  The strings that the regular expression matches as a whole: one or more digits,
  optionally followed by a dot and one or more digits.
\<close>

definition matchesDecimal :: "string \<Rightarrow> bool" where
  "matchesDecimal p =
     (let ds = takeWhile isDigit p; rest = dropWhile isDigit p in
      ds \<noteq> [] \<and>
      (rest = [] \<or> (hd rest = CHR ''.'' \<and> tl rest \<noteq> [] \<and> list_all isDigit (tl rest))))"

definition parseNumber :: "('n, 't) golib \<Rightarrow> string \<Rightarrow> 'n option" where
  "parseNumber L s = ParseFloat L (extractNum s)"

subsection \<open>opTypeMap and compileCondition\<close>

text \<open>
  The argument value of a condition is an \<open>interface{}\<close> holding a string, a
  \<open>float64\<close> or a \<open>time.Time\<close>.
\<close>

datatype ('n, 't) argValue = VString string | VNumber 'n | VTime 't

text \<open>
  The type assertions \<open>v.(string)\<close>, \<open>v.(float64)\<close> and \<open>v.(time.Time)\<close> of the match
  constructors. \<open>compileCondition\<close> builds the value from the accessor of the argument
  type that also selects the constructor, so an assertion never meets another
  constructor; the fallback equations only make the functions total.
\<close>

fun asString :: "('n, 't) argValue \<Rightarrow> (string \<Rightarrow> bool) \<Rightarrow> bool" where
  "asString (VString x) k = k x"
| "asString _ k = False"

fun asNumber :: "('n, 't) argValue \<Rightarrow> ('n \<Rightarrow> bool) \<Rightarrow> bool" where
  "asNumber (VNumber x) k = k x"
| "asNumber _ k = False"

fun asTime :: "('n, 't) argValue \<Rightarrow> ('t \<Rightarrow> bool) \<Rightarrow> bool" where
  "asTime (VTime x) k = k x"
| "asTime _ k = False"

text \<open>\<open>strings.Contains(s, sub)\<close>: \<open>sub\<close> occurs in \<open>s\<close> as a contiguous run.\<close>

fun hasPrefix :: "string \<Rightarrow> string \<Rightarrow> bool" where
  "hasPrefix s [] = True"
| "hasPrefix [] (p # ps) = False"
| "hasPrefix (c # s) (p # ps) = (c = p \<and> hasPrefix s ps)"

fun Contains :: "string \<Rightarrow> string \<Rightarrow> bool" where
  "Contains [] sub = (sub = [])"
| "Contains (c # s) sub = (hasPrefix (c # s) sub \<or> Contains s sub)"

text \<open>The shape shared by the numeric, date and time matchers: parse, then compare.\<close>

definition parsed :: "'a option \<Rightarrow> ('a \<Rightarrow> bool) \<Rightarrow> bool" where
  "parsed r k = (case r of None \<Rightarrow> False | Some w \<Rightarrow> k w)"

text \<open>
  The map of operator, argument type and match constructor, entry by entry in the order
  of the source. \<open>None\<close> is the missing entry.
\<close>

fun opTypeMap ::
  "('n, 't) golib \<Rightarrow> Token \<Rightarrow> Token \<Rightarrow> (('n, 't) argValue \<Rightarrow> string \<Rightarrow> bool) option" where
  "opTypeMap L TContains TString = Some (\<lambda>v s. asString v (\<lambda>x. Contains s x))"
| "opTypeMap L TEq TString = Some (\<lambda>v s. asString v (\<lambda>x. s = x))"
| "opTypeMap L TEq TNumber =
     Some (\<lambda>v s. parsed (parseNumber L s) (\<lambda>w. asNumber v (\<lambda>x. num_eq L w x)))"
| "opTypeMap L TEq TDate =
     Some (\<lambda>v s. parsed (ParseDate L s) (\<lambda>ts. asTime v (\<lambda>x. time_Equal L ts x)))"
| "opTypeMap L TEq TTime =
     Some (\<lambda>v s. parsed (ParseTime L s) (\<lambda>ts. asTime v (\<lambda>x. time_Equal L ts x)))"
| "opTypeMap L TLt TNumber =
     Some (\<lambda>v s. parsed (parseNumber L s) (\<lambda>w. asNumber v (\<lambda>x. num_lt L w x)))"
| "opTypeMap L TLt TDate =
     Some (\<lambda>v s. parsed (ParseDate L s) (\<lambda>ts. asTime v (\<lambda>x. time_Before L ts x)))"
| "opTypeMap L TLt TTime =
     Some (\<lambda>v s. parsed (ParseTime L s) (\<lambda>ts. asTime v (\<lambda>x. time_Before L ts x)))"
| "opTypeMap L TLeq TNumber =
     Some (\<lambda>v s. parsed (parseNumber L s) (\<lambda>w. asNumber v (\<lambda>x. num_le L w x)))"
| "opTypeMap L TLeq TDate =
     Some (\<lambda>v s. parsed (ParseDate L s) (\<lambda>ts. asTime v (\<lambda>x. \<not> time_After L ts x)))"
| "opTypeMap L TLeq TTime =
     Some (\<lambda>v s. parsed (ParseTime L s) (\<lambda>ts. asTime v (\<lambda>x. \<not> time_After L ts x)))"
| "opTypeMap L TGt TNumber =
     Some (\<lambda>v s. parsed (parseNumber L s) (\<lambda>w. asNumber v (\<lambda>x. num_lt L x w)))"
| "opTypeMap L TGt TDate =
     Some (\<lambda>v s. parsed (ParseDate L s) (\<lambda>ts. asTime v (\<lambda>x. time_After L ts x)))"
| "opTypeMap L TGt TTime =
     Some (\<lambda>v s. parsed (ParseTime L s) (\<lambda>ts. asTime v (\<lambda>x. time_After L ts x)))"
| "opTypeMap L TGeq TNumber =
     Some (\<lambda>v s. parsed (parseNumber L s) (\<lambda>w. asNumber v (\<lambda>x. num_le L x w)))"
| "opTypeMap L TGeq TDate =
     Some (\<lambda>v s. parsed (ParseDate L s) (\<lambda>ts. asTime v (\<lambda>x. \<not> time_Before L ts x)))"
| "opTypeMap L TGeq TTime =
     Some (\<lambda>v s. parsed (ParseTime L s) (\<lambda>ts. asTime v (\<lambda>x. \<not> time_Before L ts x)))"
| "opTypeMap L _ _ = None"

text \<open>The switch on the argument type; \<open>None\<close> is its default branch.\<close>

fun argValueOf :: "('n, 't) Arg \<Rightarrow> ('n, 't) argValue option" where
  "argValueOf a =
     (case Arg_Type a of
        TString \<Rightarrow> Some (VString (Arg_Value a))
      | TNumber \<Rightarrow> Some (VNumber (Arg_Number a))
      | TTime \<Rightarrow> Some (VTime (Arg_Time a))
      | TDate \<Rightarrow> Some (VTime (Arg_Time a))
      | _ \<Rightarrow> None)"

definition compileCondition ::
  "('n, 't) golib \<Rightarrow> ('n, 't) Condition \<Rightarrow> ('n, 't) compile_error + condition" where
  "compileCondition L cond =
     (let et = fst (splitTag (Tag cond)); at = snd (splitTag (Tag cond)) in
      if Op cond = TExists
      then Inr \<lparr>etype = et, attr = at, match = (\<lambda>s. True)\<rparr>
      else (case Arg cond of
              None \<Rightarrow> Inl (MissingArgument (Op cond))
            | Some a \<Rightarrow>
                (case argValueOf a of
                   None \<Rightarrow> Inl (UnknownArgumentType (Arg_Type a))
                 | Some argValue \<Rightarrow>
                     (case opTypeMap L (Op cond) (Arg_Type a) of
                        None \<Rightarrow> Inl (InvalidOpArg (Op cond) (Arg_Type a))
                      | Some mcons \<Rightarrow>
                          Inr \<lparr>etype = et, attr = at, match = mcons argValue\<rparr>))))"

text \<open>\<open>Compile\<close>: compile the conditions in order, stopping at the first error.\<close>

fun compileAll ::
  "('n, 't) golib \<Rightarrow> ('n, 't) Condition list \<Rightarrow> ('n, 't) compile_error + condition list" where
  "compileAll L [] = Inr []"
| "compileAll L (q # qs) =
     (case compileCondition L q of
        Inl err \<Rightarrow> Inl (CompileFailed q err)
      | Inr cond \<Rightarrow>
          (case compileAll L qs of
             Inl err \<Rightarrow> Inl err
           | Inr cs \<Rightarrow> Inr (cond # cs)))"

definition Compile ::
  "('n, 't) golib \<Rightarrow> ('n, 't) Query \<Rightarrow> ('n, 't) compile_error + ('n, 't) Compiled" where
  "Compile L q =
     (case compileAll L q of
        Inl err \<Rightarrow> Inl err
      | Inr cs \<Rightarrow> Inr \<lparr>ast = q, conds = cs\<rparr>)"

section \<open>internal/consensus: proposer-based timestamps (pbts_test.go)\<close>

text \<open>
  Instants and durations count nanoseconds, as \<open>time.Time\<close> and \<open>time.Duration\<close> do; an
  instant is its offset from a fixed reference instant. The integers are unbounded: the
  saturation of a 64-bit \<open>time.Duration\<close> is not modelled.
\<close>

type_synonym instant = int
type_synonym duration = int

definition Nanosecond :: duration where
  "Nanosecond = 1"

definition Millisecond :: duration where
  "Millisecond = 1000000 * Nanosecond"

text \<open>\<open>types.TimestampParams\<close>, as the tests build it.\<close>

record TimestampParams =
  Precision :: duration
  MsgDelay :: duration

text \<open>
  A \<open>tmtime.Source\<close> is read through \<open>Now()\<close> only. The tests use a mock whose \<open>Now()\<close>
  returns a fixed local time, so a source is the instant that \<open>Now()\<close> returns.
\<close>

record Source =
  Now :: instant

text \<open>
  Modelled from the spec: \<open>proposerWaitTime\<close> is called by \<open>TestProposerWaitTime\<close>, but its
  body is in the consensus state machine, which is not among the sources. The spec says
  that it returns the maximum of zero and the previous block time minus \<open>clock.Now()\<close>.
\<close>

definition proposerWaitTime :: "Source \<Rightarrow> instant \<Rightarrow> duration" where
  "proposerWaitTime clock previousBlockTime = max 0 (previousBlockTime - Now clock)"

text \<open>
  Modelled from the spec: \<open>proposalStepWaitingTime\<close> is called by \<open>TestProposalTimeout\<close>, but
  its body is in the consensus state machine, which is not among the sources. The spec
  says that it computes the deadline as the previous block time plus \<open>Precision\<close> plus
  \<open>MsgDelay\<close> and returns the maximum of zero and the deadline minus \<open>clock.Now()\<close>.
\<close>

definition proposalStepWaitingTime :: "Source \<Rightarrow> instant \<Rightarrow> TimestampParams \<Rightarrow> duration" where
  "proposalStepWaitingTime clock previousBlockTime params =
     (let deadline = previousBlockTime + Precision params + MsgDelay params
      in max 0 (deadline - Now clock))"

text \<open>
  Modelled from the spec: the propose step of a validator that is not the proposer
  (section 4.2 of the spec); the state machine that runs it is not among the sources.
  The effective propose-step timeout is the larger of the configured propose timeout and
  the waiting time computed at step entry.
\<close>

definition proposeTimeout :: "duration \<Rightarrow> Source \<Rightarrow> instant \<Rightarrow> TimestampParams \<Rightarrow> duration" where
  "proposeTimeout timeoutPropose clock previousBlockTime params =
     max timeoutPropose (proposalStepWaitingTime clock previousBlockTime params)"

text \<open>
  A prevote as the tests record it: the instant it was issued at and the block voted for,
  \<open>None\<close> being the nil block ID. Block IDs are numbered.
\<close>

record Prevote =
  prevoteIssuedAt :: instant
  prevoteBlockID :: "nat option"

text \<open>
  Modelled from the spec: the race of the propose step (section 4.2), entered at the
  instant \<open>entry\<close>. \<open>arrival\<close> is the first complete and timely proposal with its block, as
  the instant it becomes available and its block ID, or \<open>None\<close> when there is none. The
  validator votes for the block when it is available before the effective timeout has
  elapsed, and for nil at that moment otherwise.
\<close>

definition proposeStep ::
  "instant \<Rightarrow> duration \<Rightarrow> instant \<Rightarrow> TimestampParams \<Rightarrow> (instant \<times> nat) option \<Rightarrow> Prevote" where
  "proposeStep entry timeoutPropose previousBlockTime params arrival =
     (let giveUpAt = entry + proposeTimeout timeoutPropose \<lparr>Now = entry\<rparr> previousBlockTime params
      in case arrival of
           None \<Rightarrow> \<lparr>prevoteIssuedAt = giveUpAt, prevoteBlockID = None\<rparr>
         | Some (t, b) \<Rightarrow>
             if t < giveUpAt
             then \<lparr>prevoteIssuedAt = max entry t, prevoteBlockID = Some b\<rparr>
             else \<lparr>prevoteIssuedAt = giveUpAt, prevoteBlockID = None\<rparr>)"

section \<open>Example inputs\<close>

text \<open>
  A small library for the examples: numbers are integers, \<open>ParseFloat\<close> reads the decimal
  strings \<open>5\<close> and \<open>7\<close> and fails on
  everything else, and no string is a date or a time.
\<close>

definition exampleLib :: "(int, int) golib" where
  "exampleLib =
     \<lparr>ParseFloat = (\<lambda>s. if s = ''5'' then Some 5 else if s = ''7'' then Some 7 else None),
      ParseDate = (\<lambda>s. None),
      ParseTime = (\<lambda>s. None),
      num_eq = (\<lambda>w v. w = v),
      num_lt = (\<lambda>w v. w < v),
      num_le = (\<lambda>w v. w \<le> v),
      time_Equal = (\<lambda>a b. a = b),
      time_Before = (\<lambda>a b. a < b),
      time_After = (\<lambda>a b. b < a)\<rparr>"

text \<open>The condition \<open>tm = 'x'\<close> on a tag without a dot, and an event of type \<open>tm\<close>.\<close>

definition tmEqX :: "(int, int) Condition" where
  "tmEqX =
     \<lparr>Tag = ''tm'', Op = TEq,
      Arg = Some \<lparr>Arg_Type = TString, Arg_Value = ''x'', Arg_Number = 0, Arg_Time = 0\<rparr>\<rparr>"

definition tmEvent :: Event where
  "tmEvent = \<lparr>Type = ''tm'', Attributes = [\<lparr>Key = ''k'', Value = ''x''\<rparr>]\<rparr>"

text \<open>The condition \<open>tm EXISTS\<close>.\<close>

definition tmExists :: "(int, int) Condition" where
  "tmExists = \<lparr>Tag = ''tm'', Op = TExists, Arg = None\<rparr>"

text \<open>The conditions \<open>tx.height > 5\<close> and \<open>tx.height EXISTS\<close>.\<close>

definition heightGt5 :: "(int, int) Condition" where
  "heightGt5 =
     \<lparr>Tag = ''tx.height'', Op = TGt,
      Arg = Some \<lparr>Arg_Type = TNumber, Arg_Value = ''5'', Arg_Number = 5, Arg_Time = 0\<rparr>\<rparr>"

definition heightExists :: "(int, int) Condition" where
  "heightExists = \<lparr>Tag = ''tx.height'', Op = TExists, Arg = None\<rparr>"

text \<open>An event of type \<open>tx\<close> that carries the attribute \<open>height\<close> twice, and one without it.\<close>

definition txEvent :: Event where
  "txEvent =
     \<lparr>Type = ''tx'',
      Attributes = [\<lparr>Key = ''height'', Value = ''n/a''\<rparr>,
                    \<lparr>Key = ''hash'', Value = ''AB''\<rparr>,
                    \<lparr>Key = ''height'', Value = ''7 blocks''\<rparr>]\<rparr>"

definition txBare :: Event where
  "txBare = \<lparr>Type = ''tx'', Attributes = [\<lparr>Key = ''hash'', Value = ''AB''\<rparr>]\<rparr>"

text \<open>The query \<open>tx.height > 5 AND tm EXISTS\<close>, compiled.\<close>

definition exampleQuery :: "(int, int) Compiled" where
  "exampleQuery = projr (Compile exampleLib [heightGt5, tmExists])"

section \<open>Properties of the compiled queries\<close>

subsection \<open>The loops as list operations\<close>

lemma collectAttr_filter:
  "collectAttr name as vals = vals @ map Value (filter (\<lambda>a. Key a = name) as)"
  by (induction as arbitrary: vals) auto

lemma matchesValue_iff: "matchesValue m vs = (\<exists>v\<in>set vs. m v)"
  by (induction vs) auto

lemma matchesAny_iff: "matchesAny c events = (\<exists>e\<in>set events. matchesEvent c e)"
  by (induction events) auto

lemma matchesAll_iff:
  "matchesAll cs events = (events \<noteq> [] \<and> (\<forall>c\<in>set cs. matchesAny c events))"
  by (induction cs) auto

lemma findAttr_named:
  "attr c \<noteq> [] \<Longrightarrow>
   findAttr c event =
     (if Type event \<noteq> etype c then ([], False)
      else (map Value (filter (\<lambda>a. Key a = attr c) (Attributes event)), True))"
  by (simp add: findAttr_def collectAttr_filter)

lemma matchesEvent_named:
  "attr c \<noteq> [] \<Longrightarrow>
   matchesEvent c event =
     (Type event = etype c \<and> (\<exists>a\<in>set (Attributes event). Key a = attr c \<and> match c (Value a)))"
  by (auto simp: matchesEvent_def findAttr_named matchesValue_iff filter_empty_conv)


subsection \<open>The numeric prefix\<close>

lemma not_isDigit_dot: "\<not> isDigit CHR ''.''"
  by (simp add: isDigit_def)

lemma extractNum_Nil:
  assumes "dropWhile isDigit s = []"
  shows "extractNum s = takeWhile isDigit s"
proof -
  have "extractNum s = (if takeWhile isDigit s = [] then [] else takeWhile isDigit s)"
    unfolding extractNum_def Let_def assms by (simp only: list.case)
  then show ?thesis by (simp split: if_splits)
qed

lemma extractNum_Cons:
  "dropWhile isDigit s = c # rest' \<Longrightarrow>
   extractNum s =
     (if takeWhile isDigit s = [] then []
      else if c = CHR ''.'' \<and> takeWhile isDigit rest' \<noteq> []
      then takeWhile isDigit s @ [c] @ takeWhile isDigit rest'
      else takeWhile isDigit s)"
  unfolding extractNum_def Let_def by simp

lemma extractNum_prefix: "prefix (extractNum s) s"
proof (cases "dropWhile isDigit s")
  case Nil
  have "prefix (takeWhile isDigit s) s"
    by (rule prefixI [OF sym]) (rule takeWhile_dropWhile_id)
  then show ?thesis by (simp only: extractNum_Nil [OF Nil])
next
  case (Cons c rest')
  have "takeWhile isDigit s @ dropWhile isDigit s = s" by (rule takeWhile_dropWhile_id)
  then have s1: "takeWhile isDigit s @ c # rest' = s" by (simp only: Cons)
  have r1: "takeWhile isDigit rest' @ dropWhile isDigit rest' = rest'"
    by (rule takeWhile_dropWhile_id)
  have "(takeWhile isDigit s @ [c] @ takeWhile isDigit rest') @ dropWhile isDigit rest'
          = takeWhile isDigit s @ c # (takeWhile isDigit rest' @ dropWhile isDigit rest')"
    by simp
  also have "\<dots> = s" by (simp only: r1 s1)
  finally have "prefix (takeWhile isDigit s @ [c] @ takeWhile isDigit rest') s"
    by (rule prefixI [OF sym])
  moreover have "prefix (takeWhile isDigit s) s"
    by (rule prefixI [OF sym]) (rule takeWhile_dropWhile_id)
  ultimately show ?thesis
    by (auto simp: extractNum_Cons [OF Cons])
qed

lemma extractNum_Nil_iff: "extractNum s = [] \<longleftrightarrow> (s = [] \<or> \<not> isDigit (hd s))"
proof (cases s)
  case Nil
  then show ?thesis by (simp add: extractNum_def)
next
  case (Cons x xs)
  show ?thesis
  proof (cases "isDigit x")
    case False
    then show ?thesis using Cons by (simp add: extractNum_def)
  next
    case True
    then have "takeWhile isDigit s \<noteq> []" using Cons by simp
    then have "extractNum s \<noteq> []"
      by (cases "dropWhile isDigit s") (simp_all add: extractNum_Nil extractNum_Cons)
    then show ?thesis using True Cons by simp
  qed
qed

lemma digits_decimal:
  assumes "ds \<noteq> []" and "\<forall>x\<in>set ds. isDigit x"
  shows "matchesDecimal ds"
proof -
  have "takeWhile isDigit ds = ds" using assms(2) by (simp add: takeWhile_eq_all_conv)
  moreover have "dropWhile isDigit ds = []" using assms(2) by simp
  ultimately show ?thesis using assms(1) by (simp only: matchesDecimal_def Let_def) simp
qed

lemma fraction_decimal:
  assumes "ds \<noteq> []" and "\<forall>x\<in>set ds. isDigit x" and "fs \<noteq> []" and "\<forall>x\<in>set fs. isDigit x"
  shows "matchesDecimal (ds @ CHR ''.'' # fs)"
proof -
  have t: "takeWhile isDigit (ds @ CHR ''.'' # fs) = ds"
    using assms(2) by (simp add: takeWhile_append2 not_isDigit_dot)
  have d: "dropWhile isDigit (ds @ CHR ''.'' # fs) = CHR ''.'' # fs"
    using assms(2) by (simp add: dropWhile_append2 not_isDigit_dot)
  show ?thesis
    unfolding matchesDecimal_def Let_def t d using assms by (simp add: list_all_iff)
qed

lemma extractNum_decimal:
  assumes ne: "extractNum s \<noteq> []"
  shows "matchesDecimal (extractNum s)"
proof -
  let ?ds = "takeWhile isDigit s"
  have dsd: "\<forall>x\<in>set ?ds. isDigit x" by (auto dest: set_takeWhileD)
  have ds: "?ds \<noteq> []"
  proof
    assume "?ds = []"
    then have "extractNum s = []" by (simp add: extractNum_def)
    with ne show False by simp
  qed
  show ?thesis
  proof (cases "dropWhile isDigit s")
    case Nil
    show ?thesis by (simp only: extractNum_Nil [OF Nil]) (rule digits_decimal [OF ds dsd])
  next
    case (Cons c rest')
    let ?fs = "takeWhile isDigit rest'"
    have fsd: "\<forall>x\<in>set ?fs. isDigit x" by (auto dest: set_takeWhileD)
    show ?thesis
    proof (cases "c = CHR ''.'' \<and> ?fs \<noteq> []")
      case False
      then have "extractNum s = ?ds" using ds by (auto simp: extractNum_Cons [OF Cons])
      then show ?thesis using digits_decimal [OF ds dsd] by simp
    next
      case True
      then have "extractNum s = ?ds @ CHR ''.'' # ?fs"
        using ds by (simp add: extractNum_Cons [OF Cons])
      moreover have "?fs \<noteq> []" using True by simp
      ultimately show ?thesis using fraction_decimal [OF ds dsd _ fsd] by simp
    qed
  qed
qed

lemma takeWhile_le_extractNum: "length (takeWhile isDigit s) \<le> length (extractNum s)"
  by (cases "dropWhile isDigit s") (simp_all add: extractNum_Nil extractNum_Cons)

lemma extractNum_longest:
  assumes d: "matchesDecimal p" and p: "prefix p s"
  shows "length p \<le> length (extractNum s)"
proof -
  from p obtain t where s: "s = p @ t" by (auto simp: prefix_def)
  let ?ds = "takeWhile isDigit p"
  have pd: "?ds @ dropWhile isDigit p = p" by (rule takeWhile_dropWhile_id)
  have dsd: "\<forall>x\<in>set ?ds. isDigit x" by (auto dest: set_takeWhileD)
  from d have ds: "?ds \<noteq> []" by (simp add: matchesDecimal_def Let_def)
  show ?thesis
  proof (cases "dropWhile isDigit p")
    case Nil
    have "?ds = p" using pd by (simp only: Nil append_Nil2)
    with dsd have "\<forall>x\<in>set p. isDigit x" by metis
    then have "takeWhile isDigit (p @ t) = p @ takeWhile isDigit t"
      by (simp add: takeWhile_append2)
    then have "length p \<le> length (takeWhile isDigit s)" by (simp add: s)
    then show ?thesis using takeWhile_le_extractNum [of s] by linarith
  next
    case (Cons c fs)
    from d have "hd (c # fs) = CHR ''.'' \<and> tl (c # fs) \<noteq> [] \<and> list_all isDigit (tl (c # fs))"
      unfolding matchesDecimal_def Let_def Cons by simp
    then have c: "c = CHR ''.''" and fs: "fs \<noteq> []" and fsd: "\<forall>x\<in>set fs. isDigit x"
      by (simp_all add: list_all_iff)
    have p': "?ds @ CHR ''.'' # fs = p" using pd by (simp only: Cons c)
    have s': "s = ?ds @ CHR ''.'' # (fs @ t)"
    proof -
      have "s = (?ds @ CHR ''.'' # fs) @ t" by (simp only: p' s)
      then show ?thesis by simp
    qed
    have t1: "takeWhile isDigit (?ds @ CHR ''.'' # (fs @ t)) = ?ds"
      using dsd by (simp add: takeWhile_append2 not_isDigit_dot)
    have d1: "dropWhile isDigit (?ds @ CHR ''.'' # (fs @ t)) = CHR ''.'' # (fs @ t)"
      using dsd by (simp add: dropWhile_append2 not_isDigit_dot)
    have t2: "takeWhile isDigit (fs @ t) = fs @ takeWhile isDigit t"
      using fsd by (simp add: takeWhile_append2)
    have d1s: "dropWhile isDigit s = CHR ''.'' # (fs @ t)" by (subst s', rule d1)
    have t1s: "takeWhile isDigit s = ?ds" by (subst s', rule t1)
    have "extractNum s = ?ds @ [CHR ''.''] @ (fs @ takeWhile isDigit t)"
      using ds fs by (simp add: extractNum_Cons [OF d1s] t1s t2)
    then have "length (extractNum s) = length ?ds + 1 + length fs + length (takeWhile isDigit t)"
      by simp
    moreover have "length (?ds @ CHR ''.'' # fs) = length ?ds + 1 + length fs"
      by simp
    then have "length p = length ?ds + 1 + length fs" by (simp only: p')
    ultimately show ?thesis by linarith
  qed
qed


subsection \<open>Matching a list of events\<close>

text \<open>
  Claim C7. \<open>matchesEvents\<close> returns true exactly when the event list is not empty and
  every condition of the query is matched by at least one event of the list. In
  particular no query, not even one without conditions, matches the empty list.
\<close>

theorem matchesEvents_iff:
  "matchesEvents q events =
     (events \<noteq> [] \<and> (\<forall>c\<in>set (conds q). \<exists>e\<in>set events. matchesEvent c e))
   \<and> \<not> matchesEvents q []"
  by (simp add: matchesEvents_def matchesAll_iff matchesAny_iff)

theorem matchesEvents_iff_witness:
  "length (conds exampleQuery) = 2 \<and>
   matchesEvent (conds exampleQuery ! 0) txEvent \<and>
   matchesEvent (conds exampleQuery ! 1) tmEvent \<and>
   matchesEvents exampleQuery [txEvent, tmEvent] \<and>
   \<not> matchesEvent (conds exampleQuery ! 1) txEvent \<and>
   \<not> matchesEvents exampleQuery [txEvent] \<and>
   \<not> matchesEvents exampleQuery []"
  using matchesEvents_iff [of exampleQuery "[txEvent, tmEvent]"]
    matchesEvents_iff [of exampleQuery "[txEvent]"]
  by (simp add: exampleQuery_def Compile_def compileCondition_def heightGt5_def tmExists_def
      splitTag_def exampleLib_def txEvent_def tmEvent_def matchesEvent_def findAttr_def
      parsed_def parseNumber_def extractNum_def isDigit_def)

subsection \<open>Conditions without an attribute name\<close>

text \<open>
  Claim C8, as amended. A tag without a dot compiles to a condition with an empty
  attribute name. A compiled condition with an empty attribute name matches an event
  exactly when the event has the type of the condition and the match function of the
  condition accepts the empty string. For the existence operator the match function
  accepts every string, so there the type of the event alone decides.
\<close>

theorem empty_attr_matches:
  assumes "compileCondition L cond = Inr c"
  shows "(CHR ''.'' \<notin> set (Tag cond) \<longrightarrow> attr c = [] \<and> etype c = Tag cond) \<and>
         (attr c = [] \<longrightarrow> matchesEvent c event = (Type event = etype c \<and> match c [])) \<and>
         (attr c = [] \<and> Op cond = TExists \<longrightarrow> matchesEvent c event = (Type event = etype c))"
proof -
  have ea: "(etype c, attr c) = splitTag (Tag cond)"
    using assms by (auto simp: compileCondition_def Let_def split: if_splits option.splits)
  have ex: "Op cond = TExists \<longrightarrow> match c [] = True"
    using assms by (auto simp: compileCondition_def Let_def split: if_splits option.splits)
  have ev: "attr c = [] \<longrightarrow> matchesEvent c event = (Type event = etype c \<and> match c [])"
    by (simp add: matchesEvent_def findAttr_def)
  from ea have "CHR ''.'' \<notin> set (Tag cond) \<longrightarrow> attr c = [] \<and> etype c = Tag cond"
    by (auto simp: splitTag_def split: if_splits)
  with ex ev show ?thesis by simp
qed

theorem empty_attr_matches_witness:
  "compileCondition exampleLib tmExists = Inr \<lparr>etype = ''tm'', attr = [], match = (\<lambda>s. True)\<rparr> \<and>
   CHR ''.'' \<notin> set (Tag tmExists) \<and> Op tmExists = TExists \<and>
   matchesEvent \<lparr>etype = ''tm'', attr = [], match = (\<lambda>s. True)\<rparr> tmEvent"
proof -
  have c: "compileCondition exampleLib tmExists = Inr \<lparr>etype = ''tm'', attr = [], match = (\<lambda>s. True)\<rparr>"
    by (simp add: compileCondition_def tmExists_def splitTag_def)
  show ?thesis
    using c empty_attr_matches [OF c, of tmEvent]
    by (simp add: tmExists_def tmEvent_def)
qed

text \<open>
  The claim as it was stated fails for the other operators: \<open>tm = 'x'\<close> compiles to a
  condition with an empty attribute name, the event has the type \<open>tm\<close>, and the condition
  does not match it, because the empty string is not \<open>x\<close>.
\<close>

theorem empty_attr_counterexample:
  "\<not> isl (compileCondition exampleLib tmEqX) \<and>
   attr (projr (compileCondition exampleLib tmEqX)) = [] \<and>
   Type tmEvent = etype (projr (compileCondition exampleLib tmEqX)) \<and>
   \<not> matchesEvent (projr (compileCondition exampleLib tmEqX)) tmEvent"
  by (simp add: compileCondition_def tmEqX_def tmEvent_def splitTag_def matchesEvent_def
      findAttr_def)

subsection \<open>Conditions on a named attribute\<close>

text \<open>
  Claim C10. For a compiled condition with a non-empty attribute name, \<open>findAttr\<close>
  collects, from an event of the type of the condition, the value of every attribute
  whose key is the attribute name, in order; \<open>matchesEvent\<close> holds exactly when one of the
  collected values satisfies the match function, so several attributes with the same key
  are alternatives. When no attribute of the event has the name, the condition does not
  match, not even when the operator is the existence operator.
\<close>

theorem named_attr_matches:
  assumes "compileCondition L cond = Inr c" and "attr c \<noteq> []"
  shows "findAttr c event =
           (if Type event \<noteq> etype c then ([], False)
            else (map Value (filter (\<lambda>a. Key a = attr c) (Attributes event)), True)) \<and>
         matchesEvent c event = (\<exists>v\<in>set (fst (findAttr c event)). match c v) \<and>
         matchesEvent c event =
           (Type event = etype c \<and>
            (\<exists>a\<in>set (Attributes event). Key a = attr c \<and> match c (Value a))) \<and>
         (attr c \<notin> Key ` set (Attributes event) \<longrightarrow> \<not> matchesEvent c event) \<and>
         (Op cond = TExists \<longrightarrow>
            matchesEvent c event =
              (Type event = etype c \<and> attr c \<in> Key ` set (Attributes event)))"
proof -
  note fa = findAttr_named [OF assms(2), of event]
  note me = matchesEvent_named [OF assms(2), of event]
  have vs: "matchesEvent c event = (\<exists>v\<in>set (fst (findAttr c event)). match c v)"
    unfolding me fa by auto
  have ab: "attr c \<notin> Key ` set (Attributes event) \<longrightarrow> \<not> matchesEvent c event"
    unfolding me by force
  have "Op cond = TExists \<longrightarrow> match c = (\<lambda>s. True)"
    using assms(1) by (auto simp: compileCondition_def Let_def split: if_splits option.splits)
  then have ex: "Op cond = TExists \<longrightarrow>
      matchesEvent c event = (Type event = etype c \<and> attr c \<in> Key ` set (Attributes event))"
    unfolding me by force
  from fa vs me ab ex show ?thesis by blast
qed

theorem named_attr_matches_witness:
  "\<not> isl (compileCondition exampleLib heightGt5) \<and>
   attr (projr (compileCondition exampleLib heightGt5)) = ''height'' \<and>
   fst (findAttr (projr (compileCondition exampleLib heightGt5)) txEvent) = [''n/a'', ''7 blocks''] \<and>
   \<not> match (projr (compileCondition exampleLib heightGt5)) ''n/a'' \<and>
   match (projr (compileCondition exampleLib heightGt5)) ''7 blocks'' \<and>
   matchesEvent (projr (compileCondition exampleLib heightGt5)) txEvent \<and>
   \<not> isl (compileCondition exampleLib heightExists) \<and>
   Op heightExists = TExists \<and>
   \<not> matchesEvent (projr (compileCondition exampleLib heightExists)) txBare"
proof -
  have c1: "compileCondition exampleLib heightGt5 = Inr (projr (compileCondition exampleLib heightGt5))"
    by (simp add: compileCondition_def heightGt5_def)
  have a1: "attr (projr (compileCondition exampleLib heightGt5)) \<noteq> []"
    by (simp add: compileCondition_def heightGt5_def splitTag_def)
  have c2: "compileCondition exampleLib heightExists = Inr (projr (compileCondition exampleLib heightExists))"
    by (simp add: compileCondition_def heightExists_def)
  have a2: "attr (projr (compileCondition exampleLib heightExists)) \<noteq> []"
    by (simp add: compileCondition_def heightExists_def splitTag_def)
  show ?thesis
    using named_attr_matches [OF c1 a1, of txEvent] named_attr_matches [OF c2 a2, of txBare]
    by (simp add: compileCondition_def heightGt5_def heightExists_def splitTag_def
        exampleLib_def txEvent_def txBare_def matchesEvent_def findAttr_def parsed_def
        parseNumber_def extractNum_def isDigit_def)
qed

subsection \<open>Matches, numbers and values that do not parse\<close>

lemma compile_number:
  assumes "compileCondition L cond = Inr c" and "Arg cond = Some a" and "Op cond \<noteq> TExists"
    and "Arg_Type a = TNumber"
  shows "Op cond \<in> {TEq, TLt, TLeq, TGt, TGeq} \<and>
         match c s =
           (case parseNumber L s of
              None \<Rightarrow> False
            | Some w \<Rightarrow>
                (case Op cond of
                   TEq \<Rightarrow> num_eq L w (Arg_Number a)
                 | TLt \<Rightarrow> num_lt L w (Arg_Number a)
                 | TLeq \<Rightarrow> num_le L w (Arg_Number a)
                 | TGt \<Rightarrow> num_lt L (Arg_Number a) w
                 | TGeq \<Rightarrow> num_le L (Arg_Number a) w
                 | _ \<Rightarrow> False))"
  using assms
  by (cases "Op cond") (auto simp: compileCondition_def Let_def parsed_def split: option.splits)

lemma compile_date:
  assumes "compileCondition L cond = Inr c" and "Arg cond = Some a" and "Op cond \<noteq> TExists"
    and "Arg_Type a = TDate" and "ParseDate L s = None"
  shows "\<not> match c s"
  using assms
  by (cases "Op cond") (auto simp: compileCondition_def Let_def parsed_def split: option.splits)

lemma compile_time:
  assumes "compileCondition L cond = Inr c" and "Arg cond = Some a" and "Op cond \<noteq> TExists"
    and "Arg_Type a = TTime" and "ParseTime L s = None"
  shows "\<not> match c s"
  using assms
  by (cases "Op cond") (auto simp: compileCondition_def Let_def parsed_def split: option.splits)

text \<open>
  Claim C9. \<open>Matches\<close> returns the result of \<open>matchesEvents\<close> with a nil error, for every
  compiled query and every list of events. A condition that compares with a number parses
  the attribute value with \<open>ParseFloat\<close> applied to \<open>extractNum\<close> of the value, which is the
  longest prefix of the value that is a decimal numeral (empty when the value does not
  start with a digit), and compares the parsed number with the argument by the operator.
  When the parse fails the condition does not match the value; the same holds for a date
  or a time that does not parse. No error is produced. The numbers are the values of
  \<open>float64\<close>, kept abstract together with their comparisons.
\<close>

theorem Matches_no_error:
  assumes "compileCondition L cond = Inr c" and "Arg cond = Some a" and "Op cond \<noteq> TExists"
  shows "Matches q events = (matchesEvents q events, None) \<and>
         (Arg_Type a = TNumber \<longrightarrow>
            Op cond \<in> {TEq, TLt, TLeq, TGt, TGeq} \<and>
            match c s =
              (case ParseFloat L (extractNum s) of
                 None \<Rightarrow> False
               | Some w \<Rightarrow>
                   (case Op cond of
                      TEq \<Rightarrow> num_eq L w (Arg_Number a)
                    | TLt \<Rightarrow> num_lt L w (Arg_Number a)
                    | TLeq \<Rightarrow> num_le L w (Arg_Number a)
                    | TGt \<Rightarrow> num_lt L (Arg_Number a) w
                    | TGeq \<Rightarrow> num_le L (Arg_Number a) w
                    | _ \<Rightarrow> False))) \<and>
         prefix (extractNum s) s \<and>
         (extractNum s = [] \<longleftrightarrow> s = [] \<or> \<not> isDigit (hd s)) \<and>
         (extractNum s \<noteq> [] \<longrightarrow> matchesDecimal (extractNum s)) \<and>
         (\<forall>p. matchesDecimal p \<and> prefix p s \<longrightarrow> length p \<le> length (extractNum s)) \<and>
         (Arg_Type a = TNumber \<and> ParseFloat L (extractNum s) = None \<longrightarrow> \<not> match c s) \<and>
         (Arg_Type a = TNumber \<and> ParseFloat L [] = None \<and> (s = [] \<or> \<not> isDigit (hd s))
            \<longrightarrow> \<not> match c s) \<and>
         (Arg_Type a = TDate \<and> ParseDate L s = None \<longrightarrow> \<not> match c s) \<and>
         (Arg_Type a = TTime \<and> ParseTime L s = None \<longrightarrow> \<not> match c s)"
proof -
  have m: "Matches q events = (matchesEvents q events, None)"
    by (simp add: Matches_def)
  have n: "Arg_Type a = TNumber \<longrightarrow>
            Op cond \<in> {TEq, TLt, TLeq, TGt, TGeq} \<and>
            match c s =
              (case ParseFloat L (extractNum s) of
                 None \<Rightarrow> False
               | Some w \<Rightarrow>
                   (case Op cond of
                      TEq \<Rightarrow> num_eq L w (Arg_Number a)
                    | TLt \<Rightarrow> num_lt L w (Arg_Number a)
                    | TLeq \<Rightarrow> num_le L w (Arg_Number a)
                    | TGt \<Rightarrow> num_lt L (Arg_Number a) w
                    | TGeq \<Rightarrow> num_le L (Arg_Number a) w
                    | _ \<Rightarrow> False))"
    using compile_number [OF assms, of s] by (simp add: parseNumber_def)
  have f: "Arg_Type a = TNumber \<and> ParseFloat L (extractNum s) = None \<longrightarrow> \<not> match c s"
    using n by simp
  have e: "extractNum s = [] \<longleftrightarrow> s = [] \<or> \<not> isDigit (hd s)"
    by (rule extractNum_Nil_iff)
  have f0: "Arg_Type a = TNumber \<and> ParseFloat L [] = None \<and> (s = [] \<or> \<not> isDigit (hd s))
            \<longrightarrow> \<not> match c s"
    using f e by metis
  have d: "Arg_Type a = TDate \<and> ParseDate L s = None \<longrightarrow> \<not> match c s"
    using compile_date [OF assms] by blast
  have t: "Arg_Type a = TTime \<and> ParseTime L s = None \<longrightarrow> \<not> match c s"
    using compile_time [OF assms] by blast
  have l: "\<forall>p. matchesDecimal p \<and> prefix p s \<longrightarrow> length p \<le> length (extractNum s)"
    using extractNum_longest by blast
  have dc: "extractNum s \<noteq> [] \<longrightarrow> matchesDecimal (extractNum s)"
    using extractNum_decimal by blast
  from m n extractNum_prefix [of s] e dc l f f0 d t show ?thesis by blast
qed

theorem Matches_no_error_witness:
  "\<not> isl (compileCondition exampleLib heightGt5) \<and>
   Arg heightGt5 = Some \<lparr>Arg_Type = TNumber, Arg_Value = ''5'', Arg_Number = 5, Arg_Time = 0\<rparr> \<and>
   Op heightGt5 \<noteq> TExists \<and>
   Matches exampleQuery [txEvent] = (False, None) \<and>
   extractNum ''7 blocks'' = ''7'' \<and>
   match (projr (compileCondition exampleLib heightGt5)) ''7 blocks'' \<and>
   extractNum ''n/a'' = [] \<and> ParseFloat exampleLib [] = None \<and>
   \<not> match (projr (compileCondition exampleLib heightGt5)) ''n/a''"
proof -
  define C where "C = projr (compileCondition exampleLib heightGt5)"
  define A :: "(int, int) Arg"
    where "A = \<lparr>Arg_Type = TNumber, Arg_Value = ''5'', Arg_Number = 5, Arg_Time = 0\<rparr>"
  have i: "\<not> isl (compileCondition exampleLib heightGt5)"
    by (simp add: compileCondition_def heightGt5_def)
  then have c: "compileCondition exampleLib heightGt5 = Inr C"
    unfolding C_def by simp
  have a: "Arg heightGt5 = Some A"
    by (simp add: heightGt5_def A_def)
  have o: "Op heightGt5 \<noteq> TExists"
    by (simp add: heightGt5_def)
  have ty: "Arg_Type A = TNumber" and nu: "Arg_Number A = 5"
    by (simp_all add: A_def)
  have op: "Op heightGt5 = TGt"
    by (simp add: heightGt5_def)
  have x7: "extractNum ''7 blocks'' = ''7''"
    by (simp add: extractNum_def isDigit_def)
  have xn: "extractNum ''n/a'' = []"
    by (simp add: extractNum_def isDigit_def)
  have nd: "''n/a'' = [] \<or> \<not> isDigit (hd ''n/a'')"
    by (simp add: isDigit_def)
  have p7: "ParseFloat exampleLib ''7'' = Some 7"
    by (simp add: exampleLib_def)
  have p0: "ParseFloat exampleLib [] = None"
    by (simp add: exampleLib_def)
  have lt: "num_lt exampleLib 5 7"
    by (simp add: exampleLib_def)
  have me: "matchesEvents exampleQuery [txEvent] = False"
    by (simp add: exampleQuery_def Compile_def compileCondition_def heightGt5_def tmExists_def
      splitTag_def txEvent_def matchesEvents_def matchesEvent_def findAttr_def)
  note T7 = Matches_no_error [OF c a o, of exampleQuery "[txEvent]" "''7 blocks''"]
  note Tn = Matches_no_error [OF c a o, of exampleQuery "[txEvent]" "''n/a''"]
  from T7 have "Matches exampleQuery [txEvent] = (matchesEvents exampleQuery [txEvent], None)"
    by blast
  then have r1: "Matches exampleQuery [txEvent] = (False, None)"
    by (simp only: me)
  from T7 ty have "match C ''7 blocks'' =
      (case ParseFloat exampleLib (extractNum ''7 blocks'') of
         None \<Rightarrow> False
       | Some w \<Rightarrow>
           (case Op heightGt5 of
              TEq \<Rightarrow> num_eq exampleLib w (Arg_Number A)
            | TLt \<Rightarrow> num_lt exampleLib w (Arg_Number A)
            | TLeq \<Rightarrow> num_le exampleLib w (Arg_Number A)
            | TGt \<Rightarrow> num_lt exampleLib (Arg_Number A) w
            | TGeq \<Rightarrow> num_le exampleLib (Arg_Number A) w
            | _ \<Rightarrow> False))"
    by blast
  then have r2: "match C ''7 blocks''"
    unfolding x7 p7 op nu using lt by simp
  from Tn ty p0 nd have r3: "\<not> match C ''n/a''"
    by blast
  from i a o r1 x7 r2 xn p0 r3 show ?thesis
    unfolding C_def A_def by blast
qed


section \<open>Properties of the timestamp policy\<close>

text \<open>
  Claim C1. The waiting time of the propose step is the maximum of zero and the previous
  block time plus \<open>Precision\<close> plus \<open>MsgDelay\<close> minus the local time. It is never negative,
  and it takes the values of the table of \<open>TestProposalTimeout\<close>, whatever the genesis time.
\<close>

theorem proposalStepWaitingTime_max:
  "proposalStepWaitingTime clock previousBlockTime params =
     max 0 (previousBlockTime + Precision params + MsgDelay params - Now clock) \<and>
   0 \<le> proposalStepWaitingTime clock previousBlockTime params \<and>
   proposalStepWaitingTime \<lparr>Now = genesisTime + 525 * Millisecond\<rparr>
     (genesisTime + 6 * Millisecond)
     \<lparr>Precision = Millisecond * 20, MsgDelay = Millisecond * 500\<rparr> = 1 * Millisecond \<and>
   proposalStepWaitingTime \<lparr>Now = genesisTime + 525 * Millisecond\<rparr>
     (genesisTime + 5 * Millisecond)
     \<lparr>Precision = Millisecond * 20, MsgDelay = Millisecond * 500\<rparr> = 0 \<and>
   proposalStepWaitingTime \<lparr>Now = genesisTime + 725 * Millisecond\<rparr>
     (genesisTime + 5 * Millisecond)
     \<lparr>Precision = Millisecond * 20, MsgDelay = Millisecond * 500\<rparr> = 0"
  by (simp add: proposalStepWaitingTime_def Millisecond_def Nanosecond_def)

text \<open>
  Claim C2. The waiting time of the proposer is the maximum of zero and the previous block
  time minus the local time: the difference when the previous block time is later than
  the local time, and zero otherwise, also when the two are equal. It takes the values of
  the table of \<open>TestProposerWaitTime\<close>, whatever the genesis time.
\<close>

theorem proposerWaitTime_max:
  "proposerWaitTime clock previousBlockTime = max 0 (previousBlockTime - Now clock) \<and>
   (Now clock < previousBlockTime \<longrightarrow>
      proposerWaitTime clock previousBlockTime = previousBlockTime - Now clock) \<and>
   (previousBlockTime \<le> Now clock \<longrightarrow> proposerWaitTime clock previousBlockTime = 0) \<and>
   proposerWaitTime \<lparr>Now = genesisTime + 1 * Nanosecond\<rparr> (genesisTime + 5 * Nanosecond)
     = 4 * Nanosecond \<and>
   proposerWaitTime \<lparr>Now = genesisTime + 5 * Nanosecond\<rparr> (genesisTime + 1 * Nanosecond) = 0 \<and>
   proposerWaitTime \<lparr>Now = genesisTime + 5 * Nanosecond\<rparr> (genesisTime + 5 * Nanosecond) = 0"
  by (simp add: proposerWaitTime_def Nanosecond_def)

theorem proposerWaitTime_max_witness:
  "Now \<lparr>Now = 1\<rparr> < 5 \<and> proposerWaitTime \<lparr>Now = 1\<rparr> 5 = 4 \<and>
   (5::int) \<le> Now \<lparr>Now = 5\<rparr> \<and> proposerWaitTime \<lparr>Now = 5\<rparr> 5 = 0 \<and>
   (1::int) \<le> Now \<lparr>Now = 5\<rparr> \<and> proposerWaitTime \<lparr>Now = 5\<rparr> 1 = 0"
  using proposerWaitTime_max [of "\<lparr>Now = 1\<rparr>" 5 0] proposerWaitTime_max [of "\<lparr>Now = 5\<rparr>" 5 0]
    proposerWaitTime_max [of "\<lparr>Now = 5\<rparr>" 1 0]
  by simp

text \<open>
  Claim C5. The effective timeout of the propose step is the larger of the configured
  propose timeout and the waiting time computed from the previous block time, so it is
  never shorter than either. A validator that prevotes nil does so when the effective
  timeout has elapsed after step entry, which is not before the previous block time plus
  \<open>Precision\<close> plus \<open>MsgDelay\<close>, however short the configured timeout is.
\<close>

theorem proposeTimeout_floor:
  "proposeTimeout timeoutPropose clock previousBlockTime params =
     max timeoutPropose (proposalStepWaitingTime clock previousBlockTime params) \<and>
   proposalStepWaitingTime clock previousBlockTime params
     \<le> proposeTimeout timeoutPropose clock previousBlockTime params \<and>
   timeoutPropose \<le> proposeTimeout timeoutPropose clock previousBlockTime params \<and>
   (prevoteBlockID (proposeStep entry timeoutPropose previousBlockTime params arrival) = None \<longrightarrow>
      prevoteIssuedAt (proposeStep entry timeoutPropose previousBlockTime params arrival) =
        entry + proposeTimeout timeoutPropose \<lparr>Now = entry\<rparr> previousBlockTime params \<and>
      entry + proposalStepWaitingTime \<lparr>Now = entry\<rparr> previousBlockTime params
        \<le> prevoteIssuedAt (proposeStep entry timeoutPropose previousBlockTime params arrival) \<and>
      previousBlockTime + Precision params + MsgDelay params
        \<le> prevoteIssuedAt (proposeStep entry timeoutPropose previousBlockTime params arrival))"
proof -
  have a: "proposeTimeout timeoutPropose clock previousBlockTime params =
     max timeoutPropose (proposalStepWaitingTime clock previousBlockTime params)"
    by (simp add: proposeTimeout_def)
  have b: "previousBlockTime + Precision params + MsgDelay params
       \<le> entry + proposalStepWaitingTime \<lparr>Now = entry\<rparr> previousBlockTime params"
    by (simp add: proposalStepWaitingTime_def)
  have c: "proposalStepWaitingTime \<lparr>Now = entry\<rparr> previousBlockTime params
       \<le> proposeTimeout timeoutPropose \<lparr>Now = entry\<rparr> previousBlockTime params"
    by (simp add: proposeTimeout_def)
  have d: "prevoteBlockID (proposeStep entry timeoutPropose previousBlockTime params arrival) = None \<longrightarrow>
      prevoteIssuedAt (proposeStep entry timeoutPropose previousBlockTime params arrival) =
        entry + proposeTimeout timeoutPropose \<lparr>Now = entry\<rparr> previousBlockTime params"
    by (cases arrival) (auto simp: proposeStep_def Let_def split: if_splits)
  from a b c d show ?thesis by (simp add: proposeTimeout_def) linarith
qed

theorem proposeTimeout_floor_witness:
  "prevoteBlockID (proposeStep 0 (50 * Millisecond) 0
       \<lparr>Precision = 100 * Millisecond, MsgDelay = 500 * Millisecond\<rparr> None) = None \<and>
   prevoteIssuedAt (proposeStep 0 (50 * Millisecond) 0
       \<lparr>Precision = 100 * Millisecond, MsgDelay = 500 * Millisecond\<rparr> None) = 600 * Millisecond \<and>
   proposeTimeout (50 * Millisecond) \<lparr>Now = 0\<rparr> 0
       \<lparr>Precision = 100 * Millisecond, MsgDelay = 500 * Millisecond\<rparr> = 600 * Millisecond"
  using proposeTimeout_floor [of "50 * Millisecond" "\<lparr>Now = 0\<rparr>" 0
      "\<lparr>Precision = 100 * Millisecond, MsgDelay = 500 * Millisecond\<rparr>" 0 None]
  by (simp add: proposeStep_def proposeTimeout_def proposalStepWaitingTime_def Millisecond_def
      Nanosecond_def)


end
